theory Spec2Isabelle
  imports Main "HOL-Library.Word"
begin

section \<open>The media gateway of internal/chatlog/http/route.go\<close>

text \<open>
  The handlers \<open>GetMedia\<close>, \<open>GetMediaData\<close>, \<open>HandleDatFile\<close> and \<open>HandleVoice\<close> of
  \<open>route.go\<close>, embedded as functions of the service (its data directory and its
  collaborators: the media store, the filesystem, the container decoder, the voice
  transcoder) and of the request. A handler returns the response it writes on the gin
  context together with the collaborator calls it makes, in order.
\<close>

subsection \<open>Data\<close>

type_synonym bytes = "8 word list"

text \<open>
  Go's \<open>error\<close> values, by kind: the error built by \<open>errors.InvalidArg\<close>, the
  "does not exist" error that \<open>os.IsNotExist\<close> recognises, and any other error with
  its message.
\<close>

datatype error = InvalidArg string | ErrNotExist | Failure string

text \<open>The fields of a media record that the handlers read.\<close>

record media =
  Type :: string
  Path :: string
  Data :: bytes

datatype body = MediaJSON media | ErrorJSON string

text \<open>
  What a handler writes: \<open>c.Redirect(code, location)\<close>, \<open>c.JSON(code, obj)\<close>,
  \<open>c.Data(code, contentType, data)\<close>, \<open>c.File(path)\<close> or \<open>errors.Err(c, err)\<close>.
\<close>

datatype response =
    Redirect nat string
  | JSON nat body
  | DataBytes nat string bytes
  | File string
  | Err error

datatype call =
    CallStat string
  | CallGetMedia string string
  | CallReadFile string
  | CallDat2Image bytes
  | CallSilk2MP3 bytes

record service =
  DataDir :: string
  db_GetMedia :: "string \<Rightarrow> string \<Rightarrow> error + media"
  os_Stat :: "string \<Rightarrow> error option"
  os_ReadFile :: "string \<Rightarrow> error + bytes"
  Dat2Image :: "bytes \<Rightarrow> error + bytes \<times> string"
  Silk2MP3 :: "bytes \<Rightarrow> error + bytes"

text \<open>
  The result of \<open>GetMedia\<close>: the response written (none when the handler returns
  without writing), the value of the local \<open>_err\<close> at the return, and the
  collaborator calls made.
\<close>

record result =
  response :: "response option"
  last_err :: "error option"
  calls :: "call list"

definition StatusOK :: nat where "StatusOK = 200"
definition StatusFound :: nat where "StatusFound = 302"
definition StatusBadRequest :: nat where "StatusBadRequest = 400"
definition StatusNotFound :: nat where "StatusNotFound = 404"
definition StatusInternalServerError :: nat where "StatusInternalServerError = 500"

subsection \<open>Library functions of Go used by the handlers\<close>

text \<open>\<open>os.IsNotExist(err)\<close>: false for \<open>nil\<close>.\<close>

fun os_IsNotExist :: "error option \<Rightarrow> bool" where
  "os_IsNotExist (Some ErrNotExist) = True"
| "os_IsNotExist _ = False"

text \<open>\<open>strings.TrimPrefix\<close>.\<close>

definition TrimPrefix :: "string \<Rightarrow> string \<Rightarrow> string" where
  "TrimPrefix s p = (if take (length p) s = p then drop (length p) s else s)"

text \<open>\<open>strings.Split\<close> at a one-byte separator: the empty string gives one empty piece.\<close>

fun Split :: "string \<Rightarrow> char \<Rightarrow> string list" where
  "Split [] sep = [[]]"
| "Split (c # cs) sep =
     (if c = sep then [] # Split cs sep
      else (case Split cs sep of [] \<Rightarrow> [[c]] | x # xs \<Rightarrow> (c # x) # xs))"

text \<open>\<open>strings.ToLower\<close> on the ASCII letters (no other letter folds to one of \<open>.dat\<close>).\<close>

definition lower_char :: "char \<Rightarrow> char" where
  "lower_char c =
     (case map_of (zip ''ABCDEFGHIJKLMNOPQRSTUVWXYZ'' ''abcdefghijklmnopqrstuvwxyz'') c of
        Some l \<Rightarrow> l
      | None \<Rightarrow> c)"

definition ToLower :: "string \<Rightarrow> string" where
  "ToLower s = map lower_char s"

text \<open>
  \<open>filepath.Ext\<close>: the suffix from the last dot of the last path element, scanning
  from the end of the path and stopping at a separator.
\<close>

fun ext_scan :: "string \<Rightarrow> string \<Rightarrow> string" where
  "ext_scan [] acc = []"
| "ext_scan (c # cs) acc =
     (if c = CHR ''/'' then []
      else if c = CHR ''.'' then c # acc
      else ext_scan cs (c # acc))"

definition Ext :: "string \<Rightarrow> string" where
  "Ext path = ext_scan (rev path) []"

text \<open>
  \<open>filepath.Clean\<close> (Unix separators), by its documented rules: separators are
  collapsed, each \<open>.\<close> element is dropped, each inner \<open>..\<close> element is dropped together
  with the element before it, a \<open>..\<close> that would climb above the root of a rooted path
  is dropped, and the empty result is \<open>.\<close>. \<open>clean_stack\<close> processes the elements from
  the left and keeps the output elements as a stack, last element first.
\<close>

fun clean_stack :: "bool \<Rightarrow> string list \<Rightarrow> string list \<Rightarrow> string list" where
  "clean_stack rooted [] out = out"
| "clean_stack rooted (e # es) out =
     (if e = [] \<or> e = ''.'' then clean_stack rooted es out
      else if e = ''..'' then
        (case out of
           [] \<Rightarrow> if rooted then clean_stack rooted es [] else clean_stack rooted es [''..'']
         | t # ts \<Rightarrow> if t = ''..'' then clean_stack rooted es (''..'' # out)
                     else clean_stack rooted es ts)
      else clean_stack rooted es (e # out))"

fun join_sep :: "string list \<Rightarrow> string" where
  "join_sep [] = []"
| "join_sep [e] = e"
| "join_sep (e # es) = e @ CHR ''/'' # join_sep es"

definition is_rooted :: "string \<Rightarrow> bool" where
  "is_rooted p = (case p of [] \<Rightarrow> False | c # _ \<Rightarrow> c = CHR ''/'')"

definition render :: "bool \<Rightarrow> string list \<Rightarrow> string" where
  "render rooted es =
     (if rooted then CHR ''/'' # join_sep es
      else if es = [] then ''.'' else join_sep es)"

definition Clean :: "string \<Rightarrow> string" where
  "Clean p = render (is_rooted p) (rev (clean_stack (is_rooted p) (Split p CHR ''/'') []))"

text \<open>
  \<open>filepath.Join\<close>: leading empty elements are ignored, the rest is joined with the
  separator and cleaned; no non-empty element gives the empty string.
\<close>

fun Join :: "string list \<Rightarrow> string" where
  "Join [] = []"
| "Join (e # es) = (if e = [] then Join es else Clean (join_sep (e # es)))"

subsection \<open>Helpers of the repository that are not in route.go\<close>

text \<open>
  Modelled from the spec: \<open>util.Str2List\<close> (package \<open>pkg/util\<close>, whose source is not
  at hand). The spec has the key "split on \<open>,\<close>" into its "non-empty candidates", in
  the original order.
\<close>

definition Str2List :: "string \<Rightarrow> char \<Rightarrow> string list" where
  "Str2List str sep = filter (\<lambda>e. e \<noteq> []) (Split str sep)"

text \<open>
  Modelled from the spec: the status that \<open>errors.Err\<close> (package \<open>internal/errors\<close>,
  whose source is not at hand) answers with. The spec maps \<open>InvalidArgument\<close> to 400,
  a "not found" error to 404 and any other failure to 500.
\<close>

fun Err_status :: "error \<Rightarrow> nat" where
  "Err_status (InvalidArg a) = StatusBadRequest"
| "Err_status ErrNotExist = StatusNotFound"
| "Err_status (Failure m) = StatusInternalServerError"

subsection \<open>The handlers\<close>

text \<open>\<open>HandleVoice\<close>.\<close>

definition HandleVoice :: "service \<Rightarrow> bytes \<Rightarrow> response \<times> call list" where
  "HandleVoice s data =
     (case Silk2MP3 s data of
        Inl err \<Rightarrow> (DataBytes StatusOK ''audio/silk'' data, [CallSilk2MP3 data])
      | Inr out \<Rightarrow> (DataBytes StatusOK ''audio/mp3'' out, [CallSilk2MP3 data]))"

text \<open>\<open>HandleDatFile\<close>.\<close>

definition dat_content_type :: "string \<Rightarrow> string" where
  "dat_content_type ext =
     (if ext = ''jpg'' then ''image/jpeg''
      else if ext = ''png'' then ''image/png''
      else if ext = ''gif'' then ''image/gif''
      else if ext = ''bmp'' then ''image/bmp''
      else ''image/jpg'')"

definition HandleDatFile :: "service \<Rightarrow> string \<Rightarrow> response \<times> call list" where
  "HandleDatFile s path =
     (case os_ReadFile s path of
        Inl err \<Rightarrow> (Err err, [CallReadFile path])
      | Inr b \<Rightarrow>
          (case Dat2Image s b of
             Inl err \<Rightarrow> (File path, [CallReadFile path, CallDat2Image b])
           | Inr (out, ext) \<Rightarrow>
               (DataBytes StatusOK (dat_content_type ext) out,
                [CallReadFile path, CallDat2Image b])))"

text \<open>
  The value of \<open>c.Param("path")\<close> on the route \<open>/data/*path\<close> registered by
  \<open>initRouter\<close>: gin gives a catch-all parameter the rest of the request path, from the
  slash that follows \<open>/data\<close>.
\<close>

definition Param_path :: "string \<Rightarrow> string option" where
  "Param_path url = (if take 6 url = ''/data/'' then Some (drop 5 url) else None)"

text \<open>\<open>GetMediaData\<close>, on the value of \<open>c.Param("path")\<close>.\<close>

definition absolutePath :: "service \<Rightarrow> string \<Rightarrow> string" where
  "absolutePath s param = Join [DataDir s, Clean param]"

definition GetMediaData :: "service \<Rightarrow> string \<Rightarrow> response \<times> call list" where
  "GetMediaData s param =
     (let p = absolutePath s param in
      if os_IsNotExist (os_Stat s p)
      then (JSON StatusNotFound (ErrorJSON ''File not found''), [CallStat p])
      else if ToLower (Ext p) = ''.dat''
      then (case HandleDatFile s p of (r, cs) \<Rightarrow> (r, CallStat p # cs))
      else (File p, [CallStat p]))"

text \<open>
  The loop of \<open>GetMedia\<close> over the candidates, with the local \<open>_err\<close> as an argument;
  the empty list is the code after the loop. \<open>with_call\<close> puts a call in front of the
  calls of the rest of the loop, and \<open>hit_response\<close> is the body of the loop after a
  lookup that succeeded: the test of \<open>c.Query("info")\<close>, then the switch on \<open>media.Type\<close>.
\<close>

definition with_call :: "call \<Rightarrow> result \<Rightarrow> result" where
  "with_call c r = r\<lparr>calls := c # calls r\<rparr>"

definition hit_response :: "service \<Rightarrow> string \<Rightarrow> media \<Rightarrow> response \<times> call list" where
  "hit_response s info m =
     (if info \<noteq> [] then (JSON StatusOK (MediaJSON m), [])
      else if Type m = ''voice'' then HandleVoice s (Data m)
      else (Redirect StatusFound (''/data/'' @ Path m), []))"

fun GetMedia_loop :: "service \<Rightarrow> string \<Rightarrow> string \<Rightarrow> string list \<Rightarrow> error option \<Rightarrow> result" where
  "GetMedia_loop s ty info [] err =
     (case err of
        Some e \<Rightarrow> \<lparr>response = Some (Err e), last_err = err, calls = []\<rparr>
      | None \<Rightarrow> \<lparr>response = None, last_err = err, calls = []\<rparr>)"
| "GetMedia_loop s ty info (k # ks) err =
     (if length k \<noteq> 32 then
        (if os_IsNotExist (os_Stat s (Join [DataDir s, k]))
         then with_call (CallStat (Join [DataDir s, k])) (GetMedia_loop s ty info ks err)
         else \<lparr>response = Some (Redirect StatusFound (''/data/'' @ k)), last_err = err,
               calls = [CallStat (Join [DataDir s, k])]\<rparr>)
      else
        (case db_GetMedia s ty k of
           Inl e \<Rightarrow> with_call (CallGetMedia ty k) (GetMedia_loop s ty info ks (Some e))
         | Inr m \<Rightarrow>
             (case hit_response s info m of
                (r, cs) \<Rightarrow> \<lparr>response = Some r, last_err = err, calls = CallGetMedia ty k # cs\<rparr>)))"

text \<open>\<open>GetMedia\<close>, on the category, the value of \<open>c.Query("info")\<close> and of \<open>c.Param("key")\<close>.\<close>

definition GetMedia :: "service \<Rightarrow> string \<Rightarrow> string \<Rightarrow> string \<Rightarrow> result" where
  "GetMedia s ty info param =
     (let key = TrimPrefix param ''/'' in
      if key = [] then \<lparr>response = Some (Err (InvalidArg key)), last_err = None, calls = []\<rparr>
      else let keys = Str2List key CHR '','' in
        if length keys = 0
        then \<lparr>response = Some (Err (InvalidArg key)), last_err = None, calls = []\<rparr>
        else GetMedia_loop s ty info keys None)"

definition GetImage :: "service \<Rightarrow> string \<Rightarrow> string \<Rightarrow> result" where
  "GetImage s = GetMedia s ''image''"

definition GetVideo :: "service \<Rightarrow> string \<Rightarrow> string \<Rightarrow> result" where
  "GetVideo s = GetMedia s ''video''"

definition GetFile :: "service \<Rightarrow> string \<Rightarrow> string \<Rightarrow> result" where
  "GetFile s = GetMedia s ''file''"

definition GetVoice :: "service \<Rightarrow> string \<Rightarrow> string \<Rightarrow> result" where
  "GetVoice s = GetMedia s ''voice''"

subsection \<open>Notions used to state the properties\<close>

text \<open>
  A candidate is viable when the loop of \<open>GetMedia\<close> returns at it: a path candidate
  whose probe does not report "does not exist", or a hash candidate that the store finds.
\<close>

definition viable :: "service \<Rightarrow> string \<Rightarrow> string \<Rightarrow> bool" where
  "viable s ty k =
     (if length k \<noteq> 32 then \<not> os_IsNotExist (os_Stat s (Join [DataDir s, k]))
      else (case db_GetMedia s ty k of Inl e \<Rightarrow> False | Inr m \<Rightarrow> True))"

definition candidate_response :: "service \<Rightarrow> string \<Rightarrow> string \<Rightarrow> string \<Rightarrow> response" where
  "candidate_response s ty info k =
     (if length k \<noteq> 32 then Redirect StatusFound (''/data/'' @ k)
      else (case db_GetMedia s ty k of Inl e \<Rightarrow> Err e | Inr m \<Rightarrow> fst (hit_response s info m)))"

text \<open>
  The errors of the store lookups that fail on a list of candidates, in order, and the
  error recorded after them: the last one, or the error recorded before when there is
  none.
\<close>

definition failed_lookups :: "service \<Rightarrow> string \<Rightarrow> string list \<Rightarrow> error list" where
  "failed_lookups s ty ks =
     concat (map (\<lambda>k. if length k = 32
                        then (case db_GetMedia s ty k of Inl e \<Rightarrow> [e] | Inr m \<Rightarrow> [])
                        else []) ks)"

definition last_recorded :: "error option \<Rightarrow> error list \<Rightarrow> error option" where
  "last_recorded err es = (if es = [] then err else Some (last es))"

text \<open>The payloads handed to the voice transcoder, in order.\<close>

fun transcoded :: "call list \<Rightarrow> bytes list" where
  "transcoded [] = []"
| "transcoded (CallSilk2MP3 d # cs) = d # transcoded cs"
| "transcoded (c # cs) = transcoded cs"

text \<open>
  The elements of a path: its pieces between separators, without the empty ones and
  the \<open>.\<close> ones. \<open>cleaned\<close> is the element list that \<open>Clean\<close> renders.
\<close>

definition Elements :: "string \<Rightarrow> string list" where
  "Elements p = filter (\<lambda>e. e \<noteq> [] \<and> e \<noteq> ''.'') (Split p CHR ''/'')"

definition proper :: "string \<Rightarrow> bool" where
  "proper e = (e \<noteq> [] \<and> e \<noteq> ''.'' \<and> CHR ''/'' \<notin> set e)"

definition cleaned :: "string \<Rightarrow> string list" where
  "cleaned p = rev (clean_stack (is_rooted p) (Split p CHR ''/'') [])"

subsection \<open>A concrete service\<close>

definition hashA :: string where "hashA = ''aaaaaaaaaaaaaaaaaaaaaaaaaaaaaaaa''"
definition hashB :: string where "hashB = ''bbbbbbbbbbbbbbbbbbbbbbbbbbbbbbbb''"
definition hashV :: string where "hashV = ''cccccccccccccccccccccccccccccccc''"
definition hashD :: string where "hashD = ''dddddddddddddddddddddddddddddddd''"

text \<open>
  A store that knows an image under \<open>hashB\<close> and a voice message under \<open>hashV\<close> and
  fails on any other key with an error that names the key, and
  a data directory with a picture, two container files, a container file that cannot
  be read and a file whose probe fails with a permission error.
\<close>

definition example_service :: service where
  "example_service =
     \<lparr>DataDir = ''/srv/data'',
      db_GetMedia = (\<lambda>ty k.
         if k = hashB then Inr \<lparr>Type = ''image'', Path = ''img/p.jpg'', Data = []\<rparr>
         else if k = hashV then Inr \<lparr>Type = ''voice'', Path = [], Data = [1, 2, 3]\<rparr>
         else Inl (Failure (''no media '' @ k))),
      os_Stat = (\<lambda>p.
         if p = ''/srv/data/a.jpg'' \<or> p = ''/srv/data/img/x.DAT'' \<or> p = ''/srv/data/img/y.dat''
            \<or> p = ''/srv/data/img/secret.dat''
         then None
         else if p = ''/srv/data/locked.jpg'' then Some (Failure ''permission denied'')
         else Some ErrNotExist),
      os_ReadFile = (\<lambda>p.
         if p = ''/srv/data/img/x.DAT'' then Inr [7, 7]
         else if p = ''/srv/data/img/y.dat'' then Inr [8]
         else Inl (Failure ''permission denied'')),
      Dat2Image = (\<lambda>b. if b = [7, 7] then Inr ([1], ''png'') else Inl (Failure ''unknown format'')),
      Silk2MP3 = (\<lambda>d. if d = [1, 2, 3] then Inr [9, 9] else Inl (Failure ''silk''))\<rparr>"

section \<open>Lemmas\<close>

subsection \<open>One iteration of the loop\<close>

declare Join.simps [simp del]

lemma calls_with_call [simp]: "calls (with_call c r) = c # calls r"
  by (simp add: with_call_def)

lemma response_with_call [simp]: "response (with_call c r) = response r"
  by (simp add: with_call_def)

lemma last_err_with_call [simp]: "last_err (with_call c r) = last_err r"
  by (simp add: with_call_def)

lemma hit_response_not_Err: "fst (hit_response s info m) \<noteq> Err e"
  by (simp add: hit_response_def HandleVoice_def split: sum.splits)

lemma loop_path_absent:
  "length k \<noteq> 32 \<Longrightarrow> os_IsNotExist (os_Stat s (Join [DataDir s, k])) \<Longrightarrow>
   GetMedia_loop s ty info (k # ks) err =
   with_call (CallStat (Join [DataDir s, k])) (GetMedia_loop s ty info ks err)"
  by simp

lemma loop_path_present:
  "length k \<noteq> 32 \<Longrightarrow> \<not> os_IsNotExist (os_Stat s (Join [DataDir s, k])) \<Longrightarrow>
   GetMedia_loop s ty info (k # ks) err =
   \<lparr>response = Some (Redirect StatusFound (''/data/'' @ k)), last_err = err,
    calls = [CallStat (Join [DataDir s, k])]\<rparr>"
  by simp

lemma loop_hash_miss:
  "length k = 32 \<Longrightarrow> db_GetMedia s ty k = Inl e \<Longrightarrow>
   GetMedia_loop s ty info (k # ks) err =
   with_call (CallGetMedia ty k) (GetMedia_loop s ty info ks (Some e))"
  by simp

lemma loop_hash_hit:
  "length k = 32 \<Longrightarrow> db_GetMedia s ty k = Inr m \<Longrightarrow>
   GetMedia_loop s ty info (k # ks) err =
   \<lparr>response = Some (fst (hit_response s info m)), last_err = err,
    calls = CallGetMedia ty k # snd (hit_response s info m)\<rparr>"
  by (simp split: prod.splits)

lemma loop_cases:
  obtains (absent) "length k \<noteq> 32" "os_IsNotExist (os_Stat s (Join [DataDir s, k]))"
  | (present) "length k \<noteq> 32" "\<not> os_IsNotExist (os_Stat s (Join [DataDir s, k]))"
  | (miss) e where "length k = 32" "db_GetMedia s ty k = Inl e"
  | (hit) m where "length k = 32" "db_GetMedia s ty k = Inr m"
  by (cases "db_GetMedia s ty k") auto

lemmas loop_steps = loop_path_absent loop_path_present loop_hash_miss loop_hash_hit

lemma not_viable_cases:
  "\<not> viable s ty p \<Longrightarrow>
   (length p \<noteq> 32 \<and> os_IsNotExist (os_Stat s (Join [DataDir s, p])))
   \<or> (length p = 32 \<and> (\<exists>e. db_GetMedia s ty p = Inl e))"
  by (auto simp: viable_def split: if_splits sum.splits)

lemma loop_viable_head:
  "viable s ty k \<Longrightarrow>
   response (GetMedia_loop s ty info (k # post) err) = Some (candidate_response s ty info k)"
  by (cases rule: loop_cases[where k=k and s=s and ty=ty])
     (simp_all add: viable_def candidate_response_def loop_steps del: GetMedia_loop.simps)

lemma loop_first_viable:
  "\<forall>p\<in>set pre. \<not> viable s ty p \<Longrightarrow> viable s ty k \<Longrightarrow>
   response (GetMedia_loop s ty info (pre @ k # post) err) = Some (candidate_response s ty info k)"
proof (induction pre arbitrary: err)
  case Nil
  then show ?case by (simp add: loop_viable_head del: GetMedia_loop.simps)
next
  case (Cons p pre)
  from Cons.prems have np: "\<not> viable s ty p" and rest: "\<forall>p\<in>set pre. \<not> viable s ty p"
    by simp_all
  from not_viable_cases[OF np] show ?case
  proof (elim disjE conjE exE)
    assume "length p \<noteq> 32" "os_IsNotExist (os_Stat s (Join [DataDir s, p]))"
    then show ?thesis
      using Cons.IH[OF rest Cons.prems(2)] by (simp add: loop_path_absent del: GetMedia_loop.simps)
  next
    fix e assume "length p = 32" "db_GetMedia s ty p = Inl e"
    then show ?thesis
      using Cons.IH[OF rest Cons.prems(2)] by (simp add: loop_hash_miss del: GetMedia_loop.simps)
  qed
qed

lemma loop_viable_head_err:
  "viable s ty k \<Longrightarrow> last_err (GetMedia_loop s ty info (k # post) err) = err"
  by (cases rule: loop_cases[where k=k and s=s and ty=ty])
     (simp_all add: viable_def loop_steps del: GetMedia_loop.simps)


lemma Str2List_Nil [simp]: "Str2List [] sep = []"
  by (simp add: Str2List_def)

lemma GetMedia_loop_eq:
  "Str2List (TrimPrefix param ''/'') CHR '','' \<noteq> [] \<Longrightarrow>
   GetMedia s ty info param = GetMedia_loop s ty info (Str2List (TrimPrefix param ''/'') CHR '','') None"
  by (auto simp: GetMedia_def Let_def)

lemma loop_calls_nonempty: "ks \<noteq> [] \<Longrightarrow> calls (GetMedia_loop s ty info ks err) \<noteq> []"
proof (cases ks)
  case Nil
  assume "ks \<noteq> []"
  with Nil show ?thesis by simp
next
  case (Cons k ks')
  show ?thesis unfolding Cons
    by (cases rule: loop_cases[where k=k and s=s and ty=ty]) (simp_all add: loop_steps del: GetMedia_loop.simps)
qed

lemma loop_Nil_calls [simp]: "calls (GetMedia_loop s ty info [] err) = []"
  by (simp split: option.splits)



lemma snd_HandleVoice [simp]: "snd (HandleVoice s d) = [CallSilk2MP3 d]"
  by (simp add: HandleVoice_def split: sum.splits)

lemma loop_hit_noinfo:
  "CallGetMedia ty k \<in> set (calls (GetMedia_loop s ty [] ks err)) \<Longrightarrow>
   db_GetMedia s ty k = Inr m \<Longrightarrow>
   response (GetMedia_loop s ty [] ks err) = Some (fst (hit_response s [] m))
   \<and> transcoded (calls (GetMedia_loop s ty [] ks err)) =
       (if Type m = ''voice'' then [Data m] else [])"
proof (induction ks arbitrary: err)
  case Nil
  then show ?case by (simp del: GetMedia_loop.simps)
next
  case (Cons c ks)
  show ?case
  proof (cases rule: loop_cases[where k=c and s=s and ty=ty])
    case absent
    with Cons show ?thesis by (simp add: loop_path_absent del: GetMedia_loop.simps)
  next
    case present
    with Cons.prems show ?thesis by (simp add: loop_path_present del: GetMedia_loop.simps)
  next
    case (miss e)
    with Cons show ?thesis by (auto simp add: loop_hash_miss simp del: GetMedia_loop.simps)
  next
    case (hit m')
    with Cons.prems show ?thesis
      by (auto simp add: loop_hash_hit hit_response_def simp del: GetMedia_loop.simps)
  qed
qed

lemma GetMedia_calls_loop:
  "calls (GetMedia s ty info param) \<noteq> [] \<Longrightarrow>
   GetMedia s ty info param =
   GetMedia_loop s ty info (Str2List (TrimPrefix param ''/'') CHR '','') None"
  by (auto simp: GetMedia_def Let_def split: if_splits)

lemma loop_exhausted:
  "\<forall>k\<in>set ks. \<not> viable s ty k \<Longrightarrow>
   response (GetMedia_loop s ty info ks err) = map_option Err (last_err (GetMedia_loop s ty info ks err))"
proof (induction ks arbitrary: err)
  case Nil
  then show ?case by (simp split: option.splits)
next
  case (Cons k ks)
  from Cons.prems have nk: "\<not> viable s ty k" and rest: "\<forall>k\<in>set ks. \<not> viable s ty k"
    by simp_all
  from not_viable_cases[OF nk] show ?case
    using Cons.IH[OF rest]
    by (auto simp add: loop_path_absent loop_hash_miss simp del: GetMedia_loop.simps)
qed


lemma Str2List_empty_iff:
  "Str2List key sep = [] \<longleftrightarrow> (\<forall>c\<in>set (Split key sep). c = [])"
  by (simp add: Str2List_def filter_empty_conv)

lemma loop_own_InvalidArg:
  "\<forall>k e. db_GetMedia s ty k = Inl e \<longrightarrow> (\<forall>a. e \<noteq> InvalidArg a) \<Longrightarrow>
   \<forall>a. err \<noteq> Some (InvalidArg a) \<Longrightarrow>
   response (GetMedia_loop s ty info ks err) \<noteq> Some (Err (InvalidArg a))"
proof (induction ks arbitrary: err)
  case Nil
  then show ?case by (auto split: option.splits)
next
  case (Cons c ks)
  show ?case
  proof (cases rule: loop_cases[where k=c and s=s and ty=ty])
    case absent
    with Cons show ?thesis by (simp add: loop_path_absent del: GetMedia_loop.simps)
  next
    case present
    then show ?thesis by (simp add: loop_path_present del: GetMedia_loop.simps)
  next
    case (miss e)
    with Cons.prems(1) have "\<forall>a. Some e \<noteq> Some (InvalidArg a)" by simp
    from Cons.IH[OF Cons.prems(1) this] miss show ?thesis
      by (simp add: loop_hash_miss del: GetMedia_loop.simps)
  next
    case (hit m)
    then show ?thesis
      by (simp add: loop_hash_hit hit_response_not_Err del: GetMedia_loop.simps)
  qed
qed

lemma loop_never_reads:
  "CallReadFile p \<notin> set (calls (GetMedia_loop s ty info ks err))"
proof (induction ks arbitrary: err)
  case Nil
  then show ?case by (simp del: GetMedia_loop.simps)
next
  case (Cons c ks)
  show ?case
  proof (cases rule: loop_cases[where k=c and s=s and ty=ty])
    case absent
    with Cons show ?thesis by (simp add: loop_path_absent del: GetMedia_loop.simps)
  next
    case present
    then show ?thesis by (simp add: loop_path_present del: GetMedia_loop.simps)
  next
    case (miss e)
    with Cons show ?thesis by (simp add: loop_hash_miss del: GetMedia_loop.simps)
  next
    case (hit m)
    then show ?thesis
      by (simp add: loop_hash_hit hit_response_def HandleVoice_def del: GetMedia_loop.simps
          split: sum.splits)
  qed
qed

lemma os_IsNotExist_iff: "os_IsNotExist r \<longleftrightarrow> r = Some ErrNotExist"
  by (cases r rule: os_IsNotExist.cases) simp_all


subsection \<open>The recorded error and the answers of the loop\<close>

lemma failed_lookups_Nil [simp]: "failed_lookups s ty [] = []"
  by (simp add: failed_lookups_def)

lemma failed_lookups_path:
  "length k \<noteq> 32 \<Longrightarrow> failed_lookups s ty (k # ks) = failed_lookups s ty ks"
  by (simp add: failed_lookups_def)

lemma failed_lookups_miss:
  "length k = 32 \<Longrightarrow> db_GetMedia s ty k = Inl e \<Longrightarrow>
   failed_lookups s ty (k # ks) = e # failed_lookups s ty ks"
  by (simp add: failed_lookups_def)

lemma last_recorded_Cons: "last_recorded err (e # es) = last_recorded (Some e) es"
  by (simp add: last_recorded_def)

lemma loop_skip_prefix:
  "\<forall>p\<in>set pre. \<not> viable s ty p \<Longrightarrow>
   response (GetMedia_loop s ty info (pre @ rest) err) =
     response (GetMedia_loop s ty info rest (last_recorded err (failed_lookups s ty pre)))
   \<and> last_err (GetMedia_loop s ty info (pre @ rest) err) =
     last_err (GetMedia_loop s ty info rest (last_recorded err (failed_lookups s ty pre)))"
proof (induction pre arbitrary: err)
  case Nil
  show ?case by (simp add: last_recorded_def del: GetMedia_loop.simps)
next
  case (Cons p pre)
  from Cons.prems have np: "\<not> viable s ty p" and rest: "\<forall>p\<in>set pre. \<not> viable s ty p"
    by simp_all
  from not_viable_cases[OF np] show ?case
  proof (elim disjE conjE exE)
    assume a: "length p \<noteq> 32" "os_IsNotExist (os_Stat s (Join [DataDir s, p]))"
    then show ?thesis
      using Cons.IH[OF rest, of err]
      by (simp add: loop_path_absent failed_lookups_path del: GetMedia_loop.simps)
  next
    fix e assume a: "length p = 32" "db_GetMedia s ty p = Inl e"
    then show ?thesis
      using Cons.IH[OF rest, of "Some e"]
      by (simp add: loop_hash_miss failed_lookups_miss last_recorded_Cons del: GetMedia_loop.simps)
  qed
qed

lemma loop_Nil_response: "response (GetMedia_loop s ty info [] err) = map_option Err err"
  by (cases err) simp_all

lemma loop_Nil_last_err: "last_err (GetMedia_loop s ty info [] err) = err"
  by (cases err) simp_all

lemma hit_response_explicit:
  "fst (hit_response s info m) =
     (if info \<noteq> [] then JSON 200 (MediaJSON m)
      else if Type m = ''voice'' then
        (case Silk2MP3 s (Data m) of
           Inl e \<Rightarrow> DataBytes 200 ''audio/silk'' (Data m)
         | Inr out \<Rightarrow> DataBytes 200 ''audio/mp3'' out)
      else Redirect 302 (''/data/'' @ Path m))"
  by (simp add: hit_response_def HandleVoice_def StatusOK_def StatusFound_def split: sum.splits)



subsection \<open>Paths\<close>

lemma Split_nonempty [simp]: "Split p sep \<noteq> []"
  by (cases p) (auto split: list.splits)

lemma Split_no_sep: "e \<in> set (Split p sep) \<Longrightarrow> sep \<notin> set e"
proof (induction p arbitrary: e)
  case Nil
  then show ?case by simp
next
  case (Cons c p)
  then show ?case by (auto split: if_splits list.splits)
qed

lemma Split_append_sep: "Split (a @ sep # b) sep = Split a sep @ Split b sep"
proof (induction a)
  case Nil
  show ?case by simp
next
  case (Cons c a)
  then show ?case by (cases "Split a sep") (auto split: list.splits)
qed

lemma Split_no_sep_id: "sep \<notin> set e \<Longrightarrow> Split e sep = [e]"
  by (induction e) auto

lemma Split_join_sep:
  "es \<noteq> [] \<Longrightarrow> \<forall>e\<in>set es. CHR ''/'' \<notin> set e \<Longrightarrow> Split (join_sep es) CHR ''/'' = es"
proof (induction es rule: join_sep.induct)
  case 1
  then show ?case by simp
next
  case (2 e)
  then show ?case by (simp add: Split_no_sep_id)
next
  case (3 e v va)
  then show ?case by (simp add: Split_append_sep Split_no_sep_id)
qed

lemma clean_stack_append:
  "clean_stack b (xs @ ys) out = clean_stack b ys (clean_stack b xs out)"
  by (induction xs arbitrary: out) (auto split: list.splits)

lemma clean_stack_proper:
  "\<forall>e\<in>set es. CHR ''/'' \<notin> set e \<Longrightarrow> \<forall>e\<in>set out. proper e \<Longrightarrow>
   \<forall>e\<in>set (clean_stack b es out). proper e"
proof (induction es arbitrary: out)
  case Nil
  then show ?case by simp
next
  case (Cons x es)
  have p2: "proper ''..''" by (simp add: proper_def)
  from Cons.prems have rest: "\<forall>e\<in>set es. CHR ''/'' \<notin> set e" by simp
  show ?case
  proof (cases "x = [] \<or> x = ''.''")
    case True
    with Cons.IH[OF rest Cons.prems(2)] show ?thesis by auto
  next
    case False
    note nx = this
    show ?thesis
    proof (cases "x = ''..''")
      case True
      show ?thesis
      proof (cases out)
        case Nil
        have "\<forall>e\<in>set [''..'']. proper e" using p2 by simp
        from Cons.IH[OF rest this] Cons.IH[OF rest, of "[]"] Nil True show ?thesis by simp
      next
        case (Cons t ts)
        from Cons Cons.prems(2) have a: "\<forall>e\<in>set ts. proper e" by simp
        from Cons.prems(2) p2 have b: "\<forall>e\<in>set (''..'' # out). proper e" by simp
        from Cons.IH[OF rest a] Cons.IH[OF rest b] Cons True show ?thesis by simp
      qed
    next
      case False
      from Cons.prems nx have "\<forall>e\<in>set (x # out). proper e" by (simp add: proper_def)
      from Cons.IH[OF rest this] nx False show ?thesis by simp
    qed
  qed
qed

lemma clean_stack_rooted_no_dotdot:
  "''..'' \<notin> set out \<Longrightarrow> ''..'' \<notin> set (clean_stack True es out)"
proof (induction es arbitrary: out)
  case Nil
  then show ?case by simp
next
  case (Cons x es)
  then show ?case by (cases out) auto
qed

lemma clean_stack_plain:
  "\<forall>e\<in>set es. e \<noteq> [] \<and> e \<noteq> ''.'' \<and> e \<noteq> ''..'' \<Longrightarrow> clean_stack b es out = rev es @ out"
  by (induction es arbitrary: out) auto

lemma Elements_render:
  "\<forall>e\<in>set es. proper e \<Longrightarrow> Elements (render b es) = es"
proof (cases "es = []")
  case True
  then show ?thesis by (simp add: Elements_def render_def)
next
  case False
  assume p: "\<forall>e\<in>set es. proper e"
  then have ns: "\<forall>e\<in>set es. CHR ''/'' \<notin> set e" by (simp add: proper_def)
  have f: "filter (\<lambda>e. e \<noteq> [] \<and> e \<noteq> ''.'') es = es"
    using p by (simp add: proper_def filter_id_conv)
  have "Split (CHR ''/'' # join_sep es) CHR ''/'' = [] # es"
    using Split_append_sep[of "[]" "CHR ''/''" "join_sep es"] Split_join_sep[OF False ns] by simp
  with False f Split_join_sep[OF False ns] show ?thesis
    by (simp add: Elements_def render_def)
qed

lemma is_rooted_render: "\<forall>e\<in>set es. proper e \<Longrightarrow> is_rooted (render b es) = b"
proof (cases es)
  case Nil
  then show ?thesis by (simp add: render_def is_rooted_def)
next
  case (Cons e es')
  assume "\<forall>e\<in>set es. proper e"
  with Cons have "e \<noteq> []" "CHR ''/'' \<notin> set e" by (simp_all add: proper_def)
  then have "is_rooted (join_sep (e # es')) = False"
    by (cases e; cases es') (auto simp: is_rooted_def)
  with Cons show ?thesis by (simp add: render_def is_rooted_def)
qed

lemma Clean_cleaned: "Clean p = render (is_rooted p) (cleaned p)"
  by (simp add: Clean_def cleaned_def)

lemma cleaned_proper: "\<forall>e\<in>set (cleaned p). proper e"
  unfolding cleaned_def using clean_stack_proper[of "Split p CHR ''/''" "[]" "is_rooted p"]
  by (auto dest: Split_no_sep)

lemma cleaned_rooted_no_dotdot: "is_rooted p \<Longrightarrow> ''..'' \<notin> set (cleaned p)"
  unfolding cleaned_def using clean_stack_rooted_no_dotdot[of "[]" "Split p CHR ''/''"] by simp

lemma Elements_Clean: "Elements (Clean p) = cleaned p"
  by (simp add: Clean_cleaned Elements_render cleaned_proper)

lemma clean_stack_filter:
  "clean_stack b es out = clean_stack b (filter (\<lambda>e. e \<noteq> [] \<and> e \<noteq> ''.'') es) out"
  by (induction es arbitrary: out) (auto split: list.splits)

lemma clean_stack_Elements:
  "clean_stack b (Split p CHR ''/'') out = clean_stack b (Elements p) out"
  unfolding Elements_def by (rule clean_stack_filter)

lemma absolutePath_cleaned:
  assumes "DataDir s \<noteq> []" and "is_rooted param"
  shows "absolutePath s param = render (is_rooted (DataDir s)) (cleaned (DataDir s) @ cleaned param)"
proof -
  let ?D = "DataDir s"
  let ?b = "is_rooted ?D"
  let ?q = "Clean param"
  from assms(1) have rt: "is_rooted (?D @ CHR ''/'' # ?q) = ?b"
    by (cases ?D) (simp_all add: is_rooted_def)
  have ab: "absolutePath s param = Clean (?D @ CHR ''/'' # ?q)"
    using assms(1) by (simp add: absolutePath_def Join.simps)
  have good: "\<forall>e\<in>set (cleaned param). e \<noteq> [] \<and> e \<noteq> ''.'' \<and> e \<noteq> ''..''"
    using cleaned_proper[of param] cleaned_rooted_no_dotdot[OF assms(2)]
    by (auto simp: proper_def)
  have "clean_stack ?b (Split (?D @ CHR ''/'' # ?q) CHR ''/'') []
        = clean_stack ?b (Split ?q CHR ''/'') (clean_stack ?b (Split ?D CHR ''/'') [])"
    by (simp add: Split_append_sep clean_stack_append)
  also have "\<dots> = clean_stack ?b (cleaned param) (clean_stack ?b (Split ?D CHR ''/'') [])"
    by (simp add: clean_stack_Elements Elements_Clean)
  also have "\<dots> = rev (cleaned param) @ clean_stack ?b (Split ?D CHR ''/'') []"
    by (rule clean_stack_plain[OF good])
  finally have st: "clean_stack ?b (Split (?D @ CHR ''/'' # ?q) CHR ''/'') []
        = rev (cleaned param) @ clean_stack ?b (Split ?D CHR ''/'') []" .
  have "Clean (?D @ CHR ''/'' # ?q)
        = render ?b (rev (clean_stack ?b (Split (?D @ CHR ''/'' # ?q) CHR ''/'') []))"
    by (simp only: Clean_def[of "?D @ CHR ''/'' # ?q"] rt)
  also have "\<dots> = render ?b (cleaned ?D @ cleaned param)"
    by (simp only: st rev_append rev_rev_ident cleaned_def)
  finally show ?thesis unfolding ab .
qed

lemma Param_path_rooted: "Param_path url = Some param \<Longrightarrow> is_rooted param"
proof -
  assume a: "Param_path url = Some param"
  then have t: "take 6 url = ''/data/''" and p: "param = drop 5 url"
    by (auto simp: Param_path_def split: if_splits)
  have "url = take 6 url @ drop 6 url" by simp
  with t have "url = ''/data/'' @ drop 6 url" by simp
  then have "drop 5 url = drop 5 (''/data/'' @ drop 6 url)" by simp
  then have "drop 5 url = CHR ''/'' # drop 6 url" by simp
  with p show ?thesis by (simp add: is_rooted_def)
qed


lemmas eval_defs = GetMedia_def example_service_def TrimPrefix_def Str2List_def Join.simps
  Clean_def is_rooted_def render_def hashA_def hashB_def hashV_def hit_response_def
  HandleVoice_def StatusOK_def StatusFound_def with_call_def viable_def hashD_def

section \<open>Properties of the handlers\<close>

subsection \<open>Exhausted candidate lists\<close>

text \<open>
  C1. When no candidate succeeds, \<open>GetMedia\<close> answers with the last recorded error if a
  store lookup failed (lemma \<open>loop_exhausted\<close>), and is meant to answer "not found"
  (status 404 with an error body) otherwise. On a key made of one path candidate that
  does not exist, the code reaches the end of the loop with no error recorded and
  returns without writing any response: the result holds no response at all, so no 404.
\<close>

theorem GetMedia_missing_paths_write_nothing:
  "GetMedia example_service ''image'' [] ''/missing.jpg'' =
     \<lparr>response = None, last_err = None, calls = [CallStat ''/srv/data/missing.jpg'']\<rparr>"
  by (simp add: eval_defs)

subsection \<open>The metadata-only flag\<close>




subsection \<open>The data endpoint stays under the data root\<close>

text \<open>
  C3. \<open>GetMediaData\<close> cleans the route parameter before it joins it to the data
  directory, and probes, reads and serves the joined path only. For a configured
  (non-empty) data directory and every request routed to \<open>/data/*path\<close>, the elements of
  that path are the elements of the cleaned data directory followed by the elements of
  the cleaned parameter, none of which is \<open>..\<close>: the path lies under the data root. So
  \<open>/data/../../etc/passwd\<close> is looked up as \<open>etc/passwd\<close> under the root.
\<close>

theorem data_path_stays_under_root:
  assumes "DataDir s \<noteq> []" and "Param_path url = Some param"
  shows "Elements (absolutePath s param) = Elements (Clean (DataDir s)) @ Elements (Clean param)
       \<and> ''..'' \<notin> set (Elements (Clean param))
       \<and> is_rooted (absolutePath s param) = is_rooted (DataDir s)
       \<and> hd (snd (GetMediaData s param)) = CallStat (absolutePath s param)
       \<and> (\<forall>p. CallStat p \<in> set (snd (GetMediaData s param)) \<or>
               CallReadFile p \<in> set (snd (GetMediaData s param)) \<or>
               fst (GetMediaData s param) = File p \<longrightarrow> p = absolutePath s param)"
proof -
  note rt = Param_path_rooted[OF assms(2)]
  note ab = absolutePath_cleaned[OF assms(1) rt]
  have pr: "\<forall>e\<in>set (cleaned (DataDir s) @ cleaned param). proper e"
    using cleaned_proper[of "DataDir s"] cleaned_proper[of param] by auto
  have e: "Elements (absolutePath s param) = Elements (Clean (DataDir s)) @ Elements (Clean param)"
    unfolding ab by (simp add: Elements_render[OF pr] Elements_Clean)
  have d: "''..'' \<notin> set (Elements (Clean param))"
    by (simp add: Elements_Clean cleaned_rooted_no_dotdot[OF rt])
  have r: "is_rooted (absolutePath s param) = is_rooted (DataDir s)"
    unfolding ab by (rule is_rooted_render[OF pr])
  have h: "hd (snd (GetMediaData s param)) = CallStat (absolutePath s param)"
    by (simp add: GetMediaData_def Let_def split: prod.splits)
  have c: "p = absolutePath s param"
    if "CallStat p \<in> set (snd (GetMediaData s param)) \<or>
        CallReadFile p \<in> set (snd (GetMediaData s param)) \<or>
        fst (GetMediaData s param) = File p" for p
    using that
    by (auto simp: GetMediaData_def HandleDatFile_def Let_def
             split: if_splits sum.splits prod.splits)
  from e d r h c show ?thesis by blast
qed

theorem data_path_stays_under_root_witness:
  "DataDir example_service \<noteq> []
   \<and> Param_path ''/data/../../etc/passwd'' = Some ''/../../etc/passwd''
   \<and> absolutePath example_service ''/../../etc/passwd'' = ''/srv/data/etc/passwd''
   \<and> Elements (absolutePath example_service ''/../../etc/passwd'') = [''srv'', ''data'', ''etc'', ''passwd'']
   \<and> GetMediaData example_service ''/../../etc/passwd''
       = (JSON 404 (ErrorJSON ''File not found''), [CallStat ''/srv/data/etc/passwd''])"
  using data_path_stays_under_root [of example_service "''/data/../../etc/passwd''" "''/../../etc/passwd''"]
  by (simp add: eval_defs Param_path_def absolutePath_def Elements_def GetMediaData_def
      StatusNotFound_def Let_def)

subsection \<open>The first viable candidate wins\<close>



subsection \<open>The error accumulator\<close>

text \<open>
  C5. The local \<open>_err\<close> holds at most one error: at the return of \<open>GetMedia\<close> it is the
  error of the last store lookup that failed among the candidates the loop went
  through, and no error when none failed; path candidates that are skipped do not
  change it. It is written to the response only when no candidate succeeds. For every
  key: when the loop reaches a viable candidate after candidates that are not viable,
  the answer is that candidate's (the redirect for a path candidate; for a hash
  candidate the record as JSON when \<open>info\<close> is not empty, otherwise the transcoded or the
  original voice payload for a record of type \<open>voice\<close> and the redirect to the record's
  path for any other type), it is not an error, and the recorded error is the one of the
  last lookup that failed before it. When no candidate is viable, the answer is the
  error of the last lookup that failed. So for a key of two hash candidates \<open>a\<close> and \<open>b\<close>
  where the lookup of \<open>a\<close> fails: if the store finds \<open>b\<close>, the answer is the one for \<open>b\<close>'s
  record and the recorded error is the one of \<open>a\<close>; if the lookup of \<open>b\<close> fails as well,
  its error replaces the one of \<open>a\<close> and is the answer.
\<close>

theorem error_accumulator_last_failure:
  assumes "Str2List (TrimPrefix param ''/'') CHR '','' = keys"
  shows "(\<forall>pre k post.
            keys = pre @ k # post \<and> (\<forall>p\<in>set pre. \<not> viable s ty p) \<and> viable s ty k \<longrightarrow>
              last_err (GetMedia s ty info param) = last_recorded None (failed_lookups s ty pre)
            \<and> (\<forall>e. response (GetMedia s ty info param) \<noteq> Some (Err e))
            \<and> (length k \<noteq> 32 \<longrightarrow>
                 response (GetMedia s ty info param) = Some (Redirect 302 (''/data/'' @ k)))
            \<and> (\<forall>m. length k = 32 \<and> db_GetMedia s ty k = Inr m \<longrightarrow>
                 response (GetMedia s ty info param) =
                   Some (if info \<noteq> [] then JSON 200 (MediaJSON m)
                  else if Type m = ''voice'' then
                    (case Silk2MP3 s (Data m) of
                       Inl e \<Rightarrow> DataBytes 200 ''audio/silk'' (Data m)
                     | Inr out \<Rightarrow> DataBytes 200 ''audio/mp3'' out)
                  else Redirect 302 (''/data/'' @ Path m))))
       \<and> (keys \<noteq> [] \<and> (\<forall>p\<in>set keys. \<not> viable s ty p) \<longrightarrow>
              last_err (GetMedia s ty info param) = last_recorded None (failed_lookups s ty keys)
            \<and> response (GetMedia s ty info param) =
                map_option Err (last_recorded None (failed_lookups s ty keys)))
       \<and> (\<forall>a b ea m.
            keys = [a, b] \<and> length a = 32 \<and> length b = 32
            \<and> db_GetMedia s ty a = Inl ea \<and> db_GetMedia s ty b = Inr m \<longrightarrow>
              last_err (GetMedia s ty info param) = Some ea
            \<and> response (GetMedia s ty info param) =
                   Some (if info \<noteq> [] then JSON 200 (MediaJSON m)
                  else if Type m = ''voice'' then
                    (case Silk2MP3 s (Data m) of
                       Inl e \<Rightarrow> DataBytes 200 ''audio/silk'' (Data m)
                     | Inr out \<Rightarrow> DataBytes 200 ''audio/mp3'' out)
                  else Redirect 302 (''/data/'' @ Path m)))
       \<and> (\<forall>a b ea eb.
            keys = [a, b] \<and> length a = 32 \<and> length b = 32
            \<and> db_GetMedia s ty a = Inl ea \<and> db_GetMedia s ty b = Inl eb \<longrightarrow>
              last_err (GetMedia s ty info param) = Some eb
            \<and> response (GetMedia s ty info param) = Some (Err eb))"
proof -
  let ?r = "GetMedia s ty info param"
  have eq: "?r = GetMedia_loop s ty info keys None" if "keys \<noteq> []"
    using GetMedia_loop_eq[of param s ty info] assms that by simp
  have c1: "last_err ?r = last_recorded None (failed_lookups s ty pre)
            \<and> (\<forall>e. response ?r \<noteq> Some (Err e))
            \<and> (length k \<noteq> 32 \<longrightarrow> response ?r = Some (Redirect 302 (''/data/'' @ k)))
            \<and> (\<forall>m. length k = 32 \<and> db_GetMedia s ty k = Inr m \<longrightarrow>
                 response ?r = Some (if info \<noteq> [] then JSON 200 (MediaJSON m)
                  else if Type m = ''voice'' then
                    (case Silk2MP3 s (Data m) of
                       Inl e \<Rightarrow> DataBytes 200 ''audio/silk'' (Data m)
                     | Inr out \<Rightarrow> DataBytes 200 ''audio/mp3'' out)
                  else Redirect 302 (''/data/'' @ Path m)))"
    if dec: "keys = pre @ k # post" and npre: "\<forall>p\<in>set pre. \<not> viable s ty p"
      and vk: "viable s ty k" for pre k post
  proof -
    from dec have "keys \<noteq> []" by simp
    note e = eq[OF this]
    note sk = loop_skip_prefix[OF npre, of info "k # post" None]
    have le: "last_err ?r = last_recorded None (failed_lookups s ty pre)"
      unfolding e dec using sk by (simp add: loop_viable_head_err[OF vk] del: GetMedia_loop.simps)
    have r: "response ?r = Some (candidate_response s ty info k)"
      unfolding e dec using sk by (simp add: loop_viable_head[OF vk] del: GetMedia_loop.simps)
    have ne: "response ?r \<noteq> Some (Err e)" for e
      unfolding r using vk
      by (auto simp: candidate_response_def viable_def hit_response_not_Err
               split: sum.splits if_splits)
    have p: "length k \<noteq> 32 \<longrightarrow> response ?r = Some (Redirect 302 (''/data/'' @ k))"
      unfolding r by (simp add: candidate_response_def StatusFound_def)
    have h: "response ?r = Some (if info \<noteq> [] then JSON 200 (MediaJSON m)
                  else if Type m = ''voice'' then
                    (case Silk2MP3 s (Data m) of
                       Inl e \<Rightarrow> DataBytes 200 ''audio/silk'' (Data m)
                     | Inr out \<Rightarrow> DataBytes 200 ''audio/mp3'' out)
                  else Redirect 302 (''/data/'' @ Path m))"
      if "length k = 32 \<and> db_GetMedia s ty k = Inr m" for m
      unfolding r using that by (simp add: candidate_response_def hit_response_explicit)
    from le ne p h show ?thesis by blast
  qed
  have c2: "last_err ?r = last_recorded None (failed_lookups s ty keys)
            \<and> response ?r = map_option Err (last_recorded None (failed_lookups s ty keys))"
    if ne: "keys \<noteq> []" and nv: "\<forall>p\<in>set keys. \<not> viable s ty p"
    unfolding eq[OF ne] using loop_skip_prefix[OF nv, of info "[]" None]
    by (simp add: loop_Nil_response loop_Nil_last_err del: GetMedia_loop.simps)
  have c3: "last_err ?r = Some ea \<and> response ?r = Some (if info \<noteq> [] then JSON 200 (MediaJSON m)
                  else if Type m = ''voice'' then
                    (case Silk2MP3 s (Data m) of
                       Inl e \<Rightarrow> DataBytes 200 ''audio/silk'' (Data m)
                     | Inr out \<Rightarrow> DataBytes 200 ''audio/mp3'' out)
                  else Redirect 302 (''/data/'' @ Path m))"
    if k: "keys = [a, b]" and la: "length a = 32" and lb: "length b = 32"
      and da: "db_GetMedia s ty a = Inl ea" and db: "db_GetMedia s ty b = Inr m" for a b ea m
  proof -
    from k have dec: "keys = [a] @ b # []" by simp
    from la da have na: "\<forall>p\<in>set [a]. \<not> viable s ty p" by (simp add: viable_def)
    from lb db have vb: "viable s ty b" by (simp add: viable_def)
    from la da have fl: "last_recorded None (failed_lookups s ty [a]) = Some ea"
      by (simp add: failed_lookups_miss last_recorded_def)
    from c1[OF dec na vb] lb db fl show ?thesis by simp
  qed
  have c4: "last_err ?r = Some eb \<and> response ?r = Some (Err eb)"
    if k: "keys = [a, b]" and la: "length a = 32" and lb: "length b = 32"
      and da: "db_GetMedia s ty a = Inl ea" and db: "db_GetMedia s ty b = Inl eb" for a b ea eb
  proof -
    from k have ne: "keys \<noteq> []" by simp
    from k la lb da db have nv: "\<forall>p\<in>set keys. \<not> viable s ty p" by (simp add: viable_def)
    from la lb da db have fl: "last_recorded None (failed_lookups s ty [a, b]) = Some eb"
      by (simp add: failed_lookups_miss last_recorded_def)
    from c2[OF ne nv] fl k show ?thesis by simp
  qed
  show ?thesis
    apply (rule conjI)
     apply (intro allI impI, elim conjE, rule c1; assumption)
    apply (rule conjI)
     apply (rule impI, elim conjE, rule c2; assumption)
    apply (rule conjI)
     apply (intro allI impI, elim conjE, rule c3; assumption)
    apply (intro allI impI, elim conjE, rule c4; assumption)
    done
qed

theorem error_accumulator_last_failure_witness:
  "Str2List (TrimPrefix (''/'' @ hashA @ '',missing.jpg,'' @ hashD @ '','' @ hashV) ''/'') CHR '',''
       = [hashA, ''missing.jpg'', hashD] @ hashV # []
   \<and> \<not> viable example_service ''voice'' hashA
   \<and> \<not> viable example_service ''voice'' ''missing.jpg''
   \<and> \<not> viable example_service ''voice'' hashD
   \<and> viable example_service ''voice'' hashV
   \<and> last_err (GetMedia example_service ''voice'' [] (''/'' @ hashA @ '',missing.jpg,'' @ hashD @ '','' @ hashV))
       = last_recorded None (failed_lookups example_service ''voice'' [hashA, ''missing.jpg'', hashD])
   \<and> last_recorded None (failed_lookups example_service ''voice'' [hashA, ''missing.jpg'', hashD])
       = Some (Failure (''no media '' @ hashD))
   \<and> GetMedia example_service ''voice'' [] (''/'' @ hashA @ '',missing.jpg,'' @ hashD @ '','' @ hashV)
       = \<lparr>response = Some (DataBytes 200 ''audio/mp3'' [9, 9]),
          last_err = Some (Failure (''no media '' @ hashD)),
          calls = [CallGetMedia ''voice'' hashA, CallStat ''/srv/data/missing.jpg'',
                   CallGetMedia ''voice'' hashD, CallGetMedia ''voice'' hashV,
                   CallSilk2MP3 [1, 2, 3]]\<rparr>
   \<and> Str2List (TrimPrefix (''/'' @ hashA @ '','' @ hashB) ''/'') CHR '','' = [hashA, hashB]
   \<and> length hashA = 32 \<and> length hashB = 32
   \<and> db_GetMedia example_service ''image'' hashA = Inl (Failure (''no media '' @ hashA))
   \<and> db_GetMedia example_service ''image'' hashB = Inr \<lparr>Type = ''image'', Path = ''img/p.jpg'', Data = []\<rparr>
   \<and> last_err (GetMedia example_service ''image'' [] (''/'' @ hashA @ '','' @ hashB))
       = Some (Failure (''no media '' @ hashA))
   \<and> GetMedia example_service ''image'' [] (''/'' @ hashA @ '','' @ hashB)
       = \<lparr>response = Some (Redirect 302 ''/data/img/p.jpg''),
          last_err = Some (Failure (''no media '' @ hashA)),
          calls = [CallGetMedia ''image'' hashA, CallGetMedia ''image'' hashB]\<rparr>"
proof -
  have s1: "Str2List (TrimPrefix (''/'' @ hashA @ '',missing.jpg,'' @ hashD @ '','' @ hashV) ''/'') CHR '',''
       = [hashA, ''missing.jpg'', hashD] @ hashV # []"
    by (simp add: eval_defs)
  have v: "\<not> viable example_service ''voice'' hashA"
      "\<not> viable example_service ''voice'' ''missing.jpg''"
      "\<not> viable example_service ''voice'' hashD"
      "viable example_service ''voice'' hashV"
    by (simp_all add: eval_defs)
  have fl: "last_recorded None (failed_lookups example_service ''voice'' [hashA, ''missing.jpg'', hashD])
       = Some (Failure (''no media '' @ hashD))"
    by (simp add: failed_lookups_def last_recorded_def eval_defs)
  have g1: "GetMedia example_service ''voice'' [] (''/'' @ hashA @ '',missing.jpg,'' @ hashD @ '','' @ hashV)
       = \<lparr>response = Some (DataBytes 200 ''audio/mp3'' [9, 9]),
          last_err = Some (Failure (''no media '' @ hashD)),
          calls = [CallGetMedia ''voice'' hashA, CallStat ''/srv/data/missing.jpg'',
                   CallGetMedia ''voice'' hashD, CallGetMedia ''voice'' hashV,
                   CallSilk2MP3 [1, 2, 3]]\<rparr>"
    by (simp add: eval_defs)
  have pre1: "[hashA, ''missing.jpg'', hashD] @ hashV # [] = [hashA, ''missing.jpg'', hashD] @ hashV # []
      \<and> (\<forall>p\<in>set [hashA, ''missing.jpg'', hashD]. \<not> viable example_service ''voice'' p)
      \<and> viable example_service ''voice'' hashV"
    using v by simp
  note t1 = error_accumulator_last_failure [where s = example_service and ty = "''voice''"
      and info = "[]", OF s1, THEN conjunct1, rule_format, OF pre1, THEN conjunct1]
  have s2: "Str2List (TrimPrefix (''/'' @ hashA @ '','' @ hashB) ''/'') CHR '','' = [hashA, hashB]"
    by (simp add: eval_defs)
  have f: "length hashA = 32" "length hashB = 32"
      "db_GetMedia example_service ''image'' hashA = Inl (Failure (''no media '' @ hashA))"
      "db_GetMedia example_service ''image'' hashB = Inr \<lparr>Type = ''image'', Path = ''img/p.jpg'', Data = []\<rparr>"
    by (simp_all add: eval_defs)
  have g2: "GetMedia example_service ''image'' [] (''/'' @ hashA @ '','' @ hashB)
       = \<lparr>response = Some (Redirect 302 ''/data/img/p.jpg''),
          last_err = Some (Failure (''no media '' @ hashA)),
          calls = [CallGetMedia ''image'' hashA, CallGetMedia ''image'' hashB]\<rparr>"
    by (simp add: eval_defs)
  have pre2: "[hashA, hashB] = [hashA, hashB] \<and> length hashA = 32 \<and> length hashB = 32
      \<and> db_GetMedia example_service ''image'' hashA = Inl (Failure (''no media '' @ hashA))
      \<and> db_GetMedia example_service ''image'' hashB = Inr \<lparr>Type = ''image'', Path = ''img/p.jpg'', Data = []\<rparr>"
    using f by simp
  note t2 = error_accumulator_last_failure [where s = example_service and ty = "''image''"
      and info = "[]", OF s2, THEN conjunct2, THEN conjunct2, THEN conjunct1, rule_format,
      OF pre2, THEN conjunct1]
  show ?thesis
    by (intro conjI s1 v t1 fl g1 s2 f t2 g2)
qed

subsection \<open>Container files on the data endpoint\<close>

text \<open>
  C6. For a path under the data root that the probe does not report missing and whose
  extension is \<open>.dat\<close> in any letter case, \<open>GetMediaData\<close> reads the file. When the
  read succeeds the bytes go to the container decoder: on success the answer is the
  decoded bytes with the content type of the decoded format (\<open>jpg\<close> gives
  \<open>image/jpeg\<close>, \<open>png\<close> gives \<open>image/png\<close>, \<open>gif\<close> gives \<open>image/gif\<close>, \<open>bmp\<close> gives
  \<open>image/bmp\<close>, any other tag gives \<open>image/jpg\<close>); on a decoder failure the answer is
  the file itself, never an error. When the read fails the decoder is not called and
  the answer is the read error.
\<close>

theorem dat_file_decoded_or_passed_through:
  assumes "\<not> os_IsNotExist (os_Stat s (absolutePath s param))"
    and "ToLower (Ext (absolutePath s param)) = ''.dat''"
  shows "(\<forall>b. os_ReadFile s (absolutePath s param) = Inr b \<longrightarrow>
            (\<forall>out ext. Dat2Image s b = Inr (out, ext) \<longrightarrow>
               GetMediaData s param =
                 (DataBytes 200 (dat_content_type ext) out,
                  [CallStat (absolutePath s param), CallReadFile (absolutePath s param),
                   CallDat2Image b]))
          \<and> (\<forall>e. Dat2Image s b = Inl e \<longrightarrow>
               GetMediaData s param =
                 (File (absolutePath s param),
                  [CallStat (absolutePath s param), CallReadFile (absolutePath s param),
                   CallDat2Image b]))
          \<and> (\<forall>e. fst (GetMediaData s param) \<noteq> Err e))
       \<and> (\<forall>e. os_ReadFile s (absolutePath s param) = Inl e \<longrightarrow>
            GetMediaData s param =
              (Err e, [CallStat (absolutePath s param), CallReadFile (absolutePath s param)]))
       \<and> dat_content_type ''jpg'' = ''image/jpeg''
       \<and> dat_content_type ''png'' = ''image/png''
       \<and> dat_content_type ''gif'' = ''image/gif''
       \<and> dat_content_type ''bmp'' = ''image/bmp''
       \<and> (\<forall>ext. ext \<noteq> ''jpg'' \<and> ext \<noteq> ''png'' \<and> ext \<noteq> ''gif'' \<and> ext \<noteq> ''bmp''
            \<longrightarrow> dat_content_type ext = ''image/jpg'')"
proof -
  have g: "GetMediaData s param =
           (case HandleDatFile s (absolutePath s param) of
              (r, cs) \<Rightarrow> (r, CallStat (absolutePath s param) # cs))"
    using assms by (simp add: GetMediaData_def Let_def)
  have ok: "(\<forall>out ext. Dat2Image s b = Inr (out, ext) \<longrightarrow>
               GetMediaData s param =
                 (DataBytes 200 (dat_content_type ext) out,
                  [CallStat (absolutePath s param), CallReadFile (absolutePath s param),
                   CallDat2Image b]))
          \<and> (\<forall>e. Dat2Image s b = Inl e \<longrightarrow>
               GetMediaData s param =
                 (File (absolutePath s param),
                  [CallStat (absolutePath s param), CallReadFile (absolutePath s param),
                   CallDat2Image b]))
          \<and> (\<forall>e. fst (GetMediaData s param) \<noteq> Err e)"
    if "os_ReadFile s (absolutePath s param) = Inr b" for b
    unfolding g using that
    by (cases "Dat2Image s b") (auto simp: HandleDatFile_def StatusOK_def)
  have bad: "GetMediaData s param =
              (Err e, [CallStat (absolutePath s param), CallReadFile (absolutePath s param)])"
    if "os_ReadFile s (absolutePath s param) = Inl e" for e
    unfolding g using that by (simp add: HandleDatFile_def)
  have ct: "dat_content_type ''jpg'' = ''image/jpeg'' \<and> dat_content_type ''png'' = ''image/png''
       \<and> dat_content_type ''gif'' = ''image/gif'' \<and> dat_content_type ''bmp'' = ''image/bmp''
       \<and> (\<forall>ext. ext \<noteq> ''jpg'' \<and> ext \<noteq> ''png'' \<and> ext \<noteq> ''gif'' \<and> ext \<noteq> ''bmp''
            \<longrightarrow> dat_content_type ext = ''image/jpg'')"
    by (simp add: dat_content_type_def)
  from ok bad ct show ?thesis by blast
qed

theorem dat_file_decoded_or_passed_through_witness:
  "\<not> os_IsNotExist (os_Stat example_service (absolutePath example_service ''/img/x.DAT''))
   \<and> ToLower (Ext (absolutePath example_service ''/img/x.DAT'')) = ''.dat''
   \<and> GetMediaData example_service ''/img/x.DAT''
       = (DataBytes 200 ''image/png'' [1],
          [CallStat ''/srv/data/img/x.DAT'', CallReadFile ''/srv/data/img/x.DAT'', CallDat2Image [7, 7]])
   \<and> \<not> os_IsNotExist (os_Stat example_service (absolutePath example_service ''/img/y.dat''))
   \<and> ToLower (Ext (absolutePath example_service ''/img/y.dat'')) = ''.dat''
   \<and> GetMediaData example_service ''/img/y.dat''
       = (File ''/srv/data/img/y.dat'',
          [CallStat ''/srv/data/img/y.dat'', CallReadFile ''/srv/data/img/y.dat'', CallDat2Image [8]])"
  using dat_file_decoded_or_passed_through [of example_service "''/img/x.DAT''"]
    dat_file_decoded_or_passed_through [of example_service "''/img/y.dat''"]
  by (simp add: eval_defs absolutePath_def GetMediaData_def HandleDatFile_def ToLower_def
      lower_char_def Ext_def dat_content_type_def Let_def)

text \<open>
  A container file that exists and cannot be read: the decoder is not called and the
  answer is an error.
\<close>

theorem dat_file_unreadable_counterexample:
  "\<not> os_IsNotExist (os_Stat example_service (absolutePath example_service ''/img/secret.dat''))
   \<and> ToLower (Ext (absolutePath example_service ''/img/secret.dat'')) = ''.dat''
   \<and> GetMediaData example_service ''/img/secret.dat''
       = (Err (Failure ''permission denied''),
          [CallStat ''/srv/data/img/secret.dat'', CallReadFile ''/srv/data/img/secret.dat''])"
  by (simp add: eval_defs absolutePath_def GetMediaData_def HandleDatFile_def ToLower_def
      lower_char_def Ext_def Let_def)

subsection \<open>Voice payloads\<close>

text \<open>
  C7. \<open>HandleVoice\<close> answers with status 200 in both cases: the transcoded bytes as
  \<open>audio/mp3\<close> when the transcoder succeeds, and the payload it was given, unchanged, as
  \<open>audio/silk\<close> when the transcoder fails. It never answers with an error.
\<close>

theorem HandleVoice_degrades_gracefully:
  "(\<forall>out. Silk2MP3 s data = Inr out \<longrightarrow>
      HandleVoice s data = (DataBytes 200 ''audio/mp3'' out, [CallSilk2MP3 data]))
   \<and> (\<forall>e. Silk2MP3 s data = Inl e \<longrightarrow>
      HandleVoice s data = (DataBytes 200 ''audio/silk'' data, [CallSilk2MP3 data]))
   \<and> (\<forall>e. fst (HandleVoice s data) \<noteq> Err e)"
  by (simp add: HandleVoice_def StatusOK_def split: sum.splits)

theorem HandleVoice_degrades_gracefully_witness:
  "Silk2MP3 example_service [1, 2, 3] = Inr [9, 9]
   \<and> HandleVoice example_service [1, 2, 3] = (DataBytes 200 ''audio/mp3'' [9, 9], [CallSilk2MP3 [1, 2, 3]])
   \<and> Silk2MP3 example_service [4] = Inl (Failure ''silk'')
   \<and> HandleVoice example_service [4] = (DataBytes 200 ''audio/silk'' [4], [CallSilk2MP3 [4]])"
  using HandleVoice_degrades_gracefully [of example_service "[1, 2, 3]"]
    HandleVoice_degrades_gracefully [of example_service "[4]"]
  by (simp add: example_service_def)

subsection \<open>Keys without a candidate\<close>

text \<open>
  C8. For every category, \<open>GetMedia\<close> rejects the request with \<open>errors.InvalidArg\<close> of the
  key, before any store lookup or filesystem probe and without a redirect, exactly when
  the key, after one leading slash is trimmed, is empty or has only empty pieces
  between its commas; that error is answered with status 400. In every other case a
  collaborator is called. If the store never fails with an invalid-argument error of
  its own, an invalid-argument answer is given in that case only.
\<close>

theorem GetMedia_InvalidArg_iff:
  "(let key = TrimPrefix param ''/'';
        r = GetMedia s ty info param;
        no_candidate = (key = [] \<or> (\<forall>c\<in>set (Split key CHR '',''). c = []))
    in ((response r = Some (Err (InvalidArg key)) \<and> calls r = []) \<longleftrightarrow> no_candidate)
     \<and> (no_candidate \<longrightarrow> Err_status (InvalidArg key) = 400 \<and> last_err r = None)
     \<and> (\<not> no_candidate \<longrightarrow> calls r \<noteq> [])
     \<and> ((\<forall>k e. db_GetMedia s ty k = Inl e \<longrightarrow> (\<forall>a. e \<noteq> InvalidArg a)) \<longrightarrow>
          ((\<exists>a. response r = Some (Err (InvalidArg a))) \<longleftrightarrow> no_candidate)))"
proof -
  let ?key = "TrimPrefix param ''/''"
  let ?r = "GetMedia s ty info param"
  let ?nc = "?key = [] \<or> (\<forall>c\<in>set (Split ?key CHR '',''). c = [])"
  have nc: "?nc \<longleftrightarrow> Str2List ?key CHR '','' = []"
    by (auto simp: Str2List_empty_iff)
  have early: "?r = \<lparr>response = Some (Err (InvalidArg ?key)), last_err = None, calls = []\<rparr>"
    if "?nc"
    using that unfolding nc by (auto simp: GetMedia_def Let_def)
  have late: "?r = GetMedia_loop s ty info (Str2List ?key CHR '','') None" if "\<not> ?nc"
    using that unfolding nc by (rule GetMedia_loop_eq)
  have c3: "calls ?r \<noteq> []" if "\<not> ?nc"
    using that late[OF that] loop_calls_nonempty unfolding nc by simp
  have c1: "(response ?r = Some (Err (InvalidArg ?key)) \<and> calls ?r = []) \<longleftrightarrow> ?nc"
    using early c3 by (cases "?nc") auto
  have c2: "?nc \<longrightarrow> Err_status (InvalidArg ?key) = 400 \<and> last_err ?r = None"
    using early by (auto simp: StatusBadRequest_def)
  have c4: "(\<exists>a. response ?r = Some (Err (InvalidArg a))) \<longleftrightarrow> ?nc"
    if db: "\<forall>k e. db_GetMedia s ty k = Inl e \<longrightarrow> (\<forall>a. e \<noteq> InvalidArg a)"
  proof (cases "?nc")
    case True
    with early show ?thesis by auto
  next
    case False
    have "response ?r \<noteq> Some (Err (InvalidArg a))" for a
      unfolding late[OF False] by (rule loop_own_InvalidArg[OF db]) simp
    with False show ?thesis by blast
  qed
  from c1 c2 c3 c4 show ?thesis unfolding Let_def by blast
qed

theorem GetMedia_InvalidArg_iff_witness:
  "Split (TrimPrefix ''/,,'' ''/'') CHR '','' = [[], [], []]
   \<and> GetMedia example_service ''file'' [] ''/,,''
       = \<lparr>response = Some (Err (InvalidArg '',,'')), last_err = None, calls = []\<rparr>
   \<and> Err_status (InvalidArg '',,'') = 400
   \<and> Split (TrimPrefix ''/missing.jpg'' ''/'') CHR '','' = [''missing.jpg'']
   \<and> calls (GetMedia example_service ''file'' [] ''/missing.jpg'') \<noteq> []"
  using GetMedia_InvalidArg_iff [of "''/,,''" example_service "''file''" "[]"]
    GetMedia_InvalidArg_iff [of "''/missing.jpg''" example_service "''file''" "[]"]
  by (simp add: eval_defs Let_def StatusBadRequest_def)

subsection \<open>The probe of a path candidate\<close>

text \<open>
  C9. A path candidate (length other than 32) is skipped only when \<open>os.Stat\<close> fails with
  the error that \<open>os.IsNotExist\<close> recognises: the loop then goes on with the next
  candidate and the same recorded error. With any other result of the probe, a
  permission error included, \<open>GetMedia\<close> answers at once with the redirect to the data
  endpoint for the candidate; the probe is its last call and it never reads the file.
\<close>

theorem path_candidate_skipped_only_when_not_exist:
  assumes "length k \<noteq> 32"
    and "Str2List (TrimPrefix param ''/'') CHR '','' = pre @ k # post"
    and "\<forall>p\<in>set pre. \<not> viable s ty p"
  shows "(os_Stat s (Join [DataDir s, k]) \<noteq> Some ErrNotExist \<longrightarrow>
            response (GetMedia s ty info param) = Some (Redirect 302 (''/data/'' @ k))
          \<and> last (calls (GetMedia s ty info param)) = CallStat (Join [DataDir s, k])
          \<and> (\<forall>p. CallReadFile p \<notin> set (calls (GetMedia s ty info param))))
       \<and> (os_Stat s (Join [DataDir s, k]) = Some ErrNotExist \<longrightarrow>
            \<not> viable s ty k
          \<and> (\<forall>err. GetMedia_loop s ty info (k # post) err =
                 with_call (CallStat (Join [DataDir s, k])) (GetMedia_loop s ty info post err)))"
proof -
  let ?keys = "Str2List (TrimPrefix param ''/'') CHR '',''"
  from assms(2) have "?keys \<noteq> []" by simp
  note eq = GetMedia_loop_eq[OF this]
  have skip: "\<not> viable s ty k \<and> (\<forall>err. GetMedia_loop s ty info (k # post) err =
                 with_call (CallStat (Join [DataDir s, k])) (GetMedia_loop s ty info post err))"
    if "os_Stat s (Join [DataDir s, k]) = Some ErrNotExist"
    using that assms(1) by (simp add: viable_def)
  have redir: "response (GetMedia s ty info param) = Some (Redirect 302 (''/data/'' @ k))
          \<and> last (calls (GetMedia s ty info param)) = CallStat (Join [DataDir s, k])
          \<and> (\<forall>p. CallReadFile p \<notin> set (calls (GetMedia s ty info param)))"
    if ne: "os_Stat s (Join [DataDir s, k]) \<noteq> Some ErrNotExist"
  proof -
    from ne assms(1) have vk: "viable s ty k" by (simp add: viable_def os_IsNotExist_iff)
    have r: "response (GetMedia s ty info param) = Some (Redirect 302 (''/data/'' @ k))"
      unfolding eq assms(2) using loop_first_viable[OF assms(3) vk] assms(1)
      by (simp add: candidate_response_def StatusFound_def)
    have l: "last (calls (GetMedia_loop s ty info (pre @ k # post) err)) = CallStat (Join [DataDir s, k])" for err
      using assms(3)
    proof (induction pre arbitrary: err)
      case Nil
      from ne assms(1) show ?case by (simp add: os_IsNotExist_iff)
    next
      case (Cons p pre)
      from Cons.prems have np: "\<not> viable s ty p" and rest: "\<forall>p\<in>set pre. \<not> viable s ty p"
        by simp_all
      have "calls (GetMedia_loop s ty info (pre @ k # post) e) \<noteq> []" for e
        by (rule loop_calls_nonempty) simp
      with not_viable_cases[OF np] Cons.IH[OF rest] show ?case
        by (auto simp add: loop_path_absent loop_hash_miss simp del: GetMedia_loop.simps)
    qed
    from r l loop_never_reads show ?thesis unfolding eq assms(2) by simp
  qed
  from skip redir show ?thesis by blast
qed

theorem path_candidate_skipped_only_when_not_exist_witness:
  "length ''locked.jpg'' \<noteq> 32
   \<and> Str2List (TrimPrefix (''/missing.jpg,locked.jpg,'' @ hashB) ''/'') CHR '',''
       = [''missing.jpg''] @ ''locked.jpg'' # [hashB]
   \<and> \<not> viable example_service ''image'' ''missing.jpg''
   \<and> os_Stat example_service (Join [DataDir example_service, ''locked.jpg''])
       = Some (Failure ''permission denied'')
   \<and> GetMedia example_service ''image'' [] (''/missing.jpg,locked.jpg,'' @ hashB)
       = \<lparr>response = Some (Redirect 302 ''/data/locked.jpg''), last_err = None,
          calls = [CallStat ''/srv/data/missing.jpg'', CallStat ''/srv/data/locked.jpg'']\<rparr>"
  using path_candidate_skipped_only_when_not_exist [of "''locked.jpg''"
      "''/missing.jpg,locked.jpg,'' @ hashB" "[''missing.jpg'']" "[hashB]" example_service "''image''" "[]"]
  by (simp add: eval_defs)

subsection \<open>The record's type decides the transcoding\<close>

text \<open>
  C10. With the metadata-only flag unset (the query value \<open>info\<close> empty), whether a
  record found by the store goes to the voice transcoder depends on the \<open>Type\<close> field of
  the record only, for every category of the request: a record of type \<open>voice\<close> is
  answered by \<open>HandleVoice\<close> on the record's \<open>Data\<close>, and a record of any other type,
  also on the \<open>/voice\<close> route, is answered with the redirect to the data endpoint for the
  record's \<open>Path\<close>, without any transcoding.
\<close>

theorem record_type_decides_transcoding:
  assumes "info = []"
    and "CallGetMedia ty k \<in> set (calls (GetMedia s ty info param))"
    and "db_GetMedia s ty k = Inr m"
  shows "(Type m = ''voice'' \<longrightarrow>
            response (GetMedia s ty info param) = Some (fst (HandleVoice s (Data m)))
            \<and> transcoded (calls (GetMedia s ty info param)) = [Data m])
       \<and> (Type m \<noteq> ''voice'' \<longrightarrow>
            response (GetMedia s ty info param) = Some (Redirect 302 (''/data/'' @ Path m))
            \<and> transcoded (calls (GetMedia s ty info param)) = [])"
proof -
  from assms(2) have ne: "calls (GetMedia s ty info param) \<noteq> []" by auto
  from GetMedia_calls_loop[OF ne] assms(1)
  have eq: "GetMedia s ty [] param =
            GetMedia_loop s ty [] (Str2List (TrimPrefix param ''/'') CHR '','') None"
    by simp
  from assms(2) have "CallGetMedia ty k \<in> set (calls (GetMedia_loop s ty []
                        (Str2List (TrimPrefix param ''/'') CHR '','') None))"
    using eq assms(1) by simp
  from loop_hit_noinfo[OF this assms(3)] show ?thesis
    unfolding assms(1) eq by (simp add: hit_response_def StatusFound_def)
qed

theorem record_type_decides_transcoding_witness:
  "CallGetMedia ''image'' hashV \<in> set (calls (GetMedia example_service ''image'' [] (''/'' @ hashV)))
   \<and> db_GetMedia example_service ''image'' hashV = Inr \<lparr>Type = ''voice'', Path = [], Data = [1, 2, 3]\<rparr>
   \<and> GetImage example_service [] (''/'' @ hashV)
       = \<lparr>response = Some (DataBytes 200 ''audio/mp3'' [9, 9]), last_err = None,
          calls = [CallGetMedia ''image'' hashV, CallSilk2MP3 [1, 2, 3]]\<rparr>
   \<and> CallGetMedia ''voice'' hashB \<in> set (calls (GetMedia example_service ''voice'' [] (''/'' @ hashB)))
   \<and> db_GetMedia example_service ''voice'' hashB = Inr \<lparr>Type = ''image'', Path = ''img/p.jpg'', Data = []\<rparr>
   \<and> GetVoice example_service [] (''/'' @ hashB)
       = \<lparr>response = Some (Redirect 302 ''/data/img/p.jpg''), last_err = None,
          calls = [CallGetMedia ''voice'' hashB]\<rparr>"
  using record_type_decides_transcoding [of "[]" "''image''" hashV example_service "''/'' @ hashV"
      "\<lparr>Type = ''voice'', Path = [], Data = [1, 2, 3]\<rparr>"]
    record_type_decides_transcoding [of "[]" "''voice''" hashB example_service "''/'' @ hashB"
      "\<lparr>Type = ''image'', Path = ''img/p.jpg'', Data = []\<rparr>"]
  by (simp add: eval_defs GetImage_def GetVoice_def)

text \<open>
  With the flag set, a record of type \<open>voice\<close> found on the \<open>/voice\<close> route is not
  transcoded, and a record of another type is not redirected: both are answered as JSON.
\<close>

theorem record_type_with_info_counterexample:
  "db_GetMedia example_service ''voice'' hashV = Inr \<lparr>Type = ''voice'', Path = [], Data = [1, 2, 3]\<rparr>
   \<and> GetVoice example_service ''1'' (''/'' @ hashV)
       = \<lparr>response = Some (JSON 200 (MediaJSON \<lparr>Type = ''voice'', Path = [], Data = [1, 2, 3]\<rparr>)),
          last_err = None, calls = [CallGetMedia ''voice'' hashV]\<rparr>
   \<and> db_GetMedia example_service ''image'' hashB = Inr \<lparr>Type = ''image'', Path = ''img/p.jpg'', Data = []\<rparr>
   \<and> GetImage example_service ''1'' (''/'' @ hashB)
       = \<lparr>response = Some (JSON 200 (MediaJSON \<lparr>Type = ''image'', Path = ''img/p.jpg'', Data = []\<rparr>)),
          last_err = None, calls = [CallGetMedia ''image'' hashB]\<rparr>"
  by (simp add: eval_defs GetImage_def GetVoice_def)

end
